theory Spec2Isabelle
  imports Complex_Main
begin

section \<open>Python text primitives used by the data processor\<close>

text \<open>
  A Python \<open>str\<close> is a \<open>string\<close>: a list of characters, each a code point below 256.
  \<open>isspace\<close> is the whitespace class shared by \<open>str.strip()\<close> and by the regular
  expression \<open>\s\<close> on \<open>str\<close> patterns: tab, line feed, vertical tab, form feed,
  carriage return, the four separators 28..31, the space, NEL (133) and the no-break
  space (160).
\<close>

definition isspace :: "char \<Rightarrow> bool" where
  "isspace c = (of_char c \<in> set [9, 10, 11, 12, 13, 28, 29, 30, 31, 32, 133, 160 :: nat])"

definition strip :: "string \<Rightarrow> string" where
  "strip s = rev (dropWhile isspace (rev (dropWhile isspace s)))"

definition startswith :: "string \<Rightarrow> string \<Rightarrow> bool" where
  "startswith s p = (take (length p) s = p)"

fun join :: "string \<Rightarrow> string list \<Rightarrow> string" where
  "join sep [] = []"
| "join sep [x] = x"
| "join sep (x # y # ys) = x @ sep @ join sep (y # ys)"

text \<open>\<open>re.sub(r'\s+', ' ', s)\<close>: every maximal run of whitespace becomes one space.\<close>

function collapse_ws :: "string \<Rightarrow> string" where
  "collapse_ws [] = []"
| "collapse_ws (c # cs) =
     (if isspace c then CHR '' '' # collapse_ws (dropWhile isspace cs)
      else c # collapse_ws cs)"
  by pat_completeness auto
termination
  by (relation "measure length") (auto simp: length_dropWhile_le less_Suc_eq_le)

text \<open>No two adjacent characters of the text are both whitespace.\<close>

fun no_ws_run :: "string \<Rightarrow> bool" where
  "no_ws_run (c # d # cs) = (\<not> (isspace c \<and> isspace d) \<and> no_ws_run (d # cs))"
| "no_ws_run cs = True"

definition NL :: string where
  "NL = [CHR 0x0A]"

section \<open>Rows and values\<close>

text \<open>
  A row (a pandas Series indexed by column name) is a map from column names to text.
  \<open>c in row\<close> is \<open>row c \<noteq> None\<close>; \<open>row.get(c, '')\<close> is \<open>cell row c\<close>.
  Cells are text, as the fields of a SourceRow are; \<open>fillna("")\<close> has made every
  missing cell the empty text before a row reaches \<open>get_ingredents_list\<close> and
  \<open>create_recipe_text\<close>. A column that pandas reads as numbers is outside the model.
\<close>

type_synonym row = "string \<rightharpoonup> string"

definition cell :: "row \<Rightarrow> string \<Rightarrow> string" where
  "cell r c = (case r c of None \<Rightarrow> [] | Some s \<Rightarrow> s)"

text \<open>
  An element of a sequence returned by \<open>ast.literal_eval\<close>. The code observes an element
  in two ways only: its truth value and its \<open>str()\<close> rendering (an f-string renders the
  same text). A \<open>str\<close> element is true when non-empty and renders as itself; any other
  literal (\<open>None\<close>, a number, a nested list) carries both observations.
\<close>

datatype pyval = PStr string | POther bool string

fun truthy :: "pyval \<Rightarrow> bool" where
  "truthy (PStr s) = (s \<noteq> [])"
| "truthy (POther b s) = b"

fun py_str :: "pyval \<Rightarrow> string" where
  "py_str (PStr s) = s"
| "py_str (POther b s) = s"

definition PNone :: pyval where
  "PNone = POther False ''None''"

text \<open>
  \<open>ast.literal_eval\<close> is a library function: it is a parameter \<open>le\<close> of the model. On a
  text that starts with \<open>[\<close> it either raises (\<open>None\<close>) or returns a list or a tuple,
  given as the list of its elements.
\<close>

type_synonym literal_eval = "string \<Rightarrow> pyval list option"

datatype exn = ValueError | AttributeError | KeyError | IndexError | DatabaseError | EncodeError

section \<open>\<open>get_ingredents_list\<close>\<close>

text \<open>The test guarding \<open>ingredients.append\<close> in the list-literal branch.\<close>

definition keep_new :: "pyval \<Rightarrow> bool" where
  "keep_new v = (truthy v \<and> strip (py_str v) \<noteq> [] \<and> strip (py_str v) \<noteq> ''None'')"

text \<open>The test on a legacy slot: \<open>row.get\<close> gives \<open>None\<close> for an absent column.\<close>

definition keep_legacy :: "string option \<Rightarrow> bool" where
  "keep_legacy v = (case v of None \<Rightarrow> False
     | Some s \<Rightarrow> s \<noteq> [] \<and> strip s \<noteq> [] \<and> strip s \<noteq> ''nan'')"

text \<open>
  The suffixes of \<open>range(1, 16)\<close> as the f-string prints them: the one-digit numbers
  1 to 9, then 10 to 15 as the digit 1 followed by a second digit.
\<close>

definition slots :: "string list" where
  "slots = map (\<lambda>d. [d]) ''123456789'' @ map (\<lambda>d. [CHR ''1'', d]) ''012345''"

text \<open>The body of the \<open>try\<close> block: \<open>Inl\<close> when \<open>ast.literal_eval\<close> raises.\<close>

definition ingredients_try :: "literal_eval \<Rightarrow> string \<Rightarrow> exn + string list" where
  "ingredients_try le s =
     (if startswith s ''[''
      then (case le s of
              None \<Rightarrow> Inl ValueError
            | Some vs \<Rightarrow> Inr (map (\<lambda>v. strip (py_str v)) (filter keep_new vs)))
      else Inr (if strip s \<noteq> [] then [strip s] else []))"

definition ingredients_legacy :: "row \<Rightarrow> string list" where
  "ingredients_legacy r =
     map (\<lambda>i. strip (cell r (''strIngredient'' @ i)))
       (filter (\<lambda>i. keep_legacy (r (''strIngredient'' @ i))) slots)"

text \<open>The list \<open>ingredients\<close> as it stands just before the final \<open>', '.join\<close>.\<close>

definition ingredient_items :: "literal_eval \<Rightarrow> row \<Rightarrow> string list" where
  "ingredient_items le r =
     (case r ''ingredients'' of
        None \<Rightarrow> ingredients_legacy r
      | Some s \<Rightarrow>
          if s \<noteq> []
          then (case ingredients_try le s of
                  Inr xs \<Rightarrow> xs
                | Inl e \<Rightarrow> (if strip s \<noteq> [] then [strip s] else []))
          else ingredients_legacy r)"

definition get_ingredents_list :: "literal_eval \<Rightarrow> row \<Rightarrow> string" where
  "get_ingredents_list le r = join '', '' (ingredient_items le r)"

section \<open>\<open>create_recipe_text\<close>\<close>

definition col_or :: "row \<Rightarrow> string \<Rightarrow> string \<Rightarrow> string" where
  "col_or r new old = (if r new \<noteq> None then new else old)"

definition recipe_header :: "row \<Rightarrow> string" where
  "recipe_header r =
     NL @ ''Drink: '' @ cell r (col_or r ''name'' ''strDrink'') @ NL @ '' ''
     @ ''Category: '' @ cell r (col_or r ''category'' ''strCategory'') @ NL
     @ ''Type: '' @ cell r (col_or r ''alcoholic'' ''strAlcoholic'') @ NL
     @ ''Glass: '' @ cell r (col_or r ''glassType'' ''strGlass'') @ NL
     @ (if cell r (col_or r ''instructions'' ''strInstructions'') \<noteq> []
        then ''Instructions: '' @ cell r (col_or r ''instructions'' ''strInstructions'') @ NL
        else [])
     @ ''Ingredients:'' @ NL"

text \<open>
  One pass of the \<open>enumerate\<close> loop of the new-shape branch, at index \<open>i\<close>: the text it
  appends to \<open>recipe\<close>.
\<close>

definition new_line :: "pyval list \<Rightarrow> nat \<Rightarrow> pyval \<Rightarrow> string" where
  "new_line ms i ingredient =
     (if keep_new ingredient
      then (if i < length ms \<and> truthy (ms ! i)
               \<and> strip (py_str (ms ! i)) \<noteq> ''None''
            then ''- '' @ py_str (ms ! i) @ '' '' @ py_str ingredient @ NL
            else ''- '' @ py_str ingredient @ NL)
      else [])"

definition new_lines :: "pyval list \<Rightarrow> pyval list \<Rightarrow> string" where
  "new_lines ings ms =
     concat (map (\<lambda>(i, v). new_line ms i v) (enumerate 0 ings))"

text \<open>
  The \<open>try\<close> block of the new-shape branch for the field \<open>s\<close>: both calls of
  \<open>ast.literal_eval\<close> precede the loop, so when one raises nothing has been appended.
\<close>

definition recipe_try :: "literal_eval \<Rightarrow> row \<Rightarrow> string \<Rightarrow> exn + string" where
  "recipe_try le r s =
     (case (if startswith s ''['' then le s else Some [PStr s]) of
        None \<Rightarrow> Inl ValueError
      | Some ings \<Rightarrow>
          (case (case r ''ingredientMeasures'' of
                   None \<Rightarrow> Some []
                 | Some m \<Rightarrow>
                     if m \<noteq> []
                     then (if startswith m ''['' then le m else Some [PStr m])
                     else Some []) of
             None \<Rightarrow> Inl ValueError
           | Some ms \<Rightarrow> Inr (new_lines ings ms)))"

definition legacy_line :: "row \<Rightarrow> string \<Rightarrow> string" where
  "legacy_line r i =
     (if keep_legacy (r (''strIngredient'' @ i))
      then (if keep_legacy (r (''strMeasure'' @ i))
            then ''- '' @ cell r (''strMeasure'' @ i) @ '' ''
                 @ cell r (''strIngredient'' @ i) @ NL
            else ''- '' @ cell r (''strIngredient'' @ i) @ NL)
      else [])"

definition recipe_legacy :: "row \<Rightarrow> string" where
  "recipe_legacy r = concat (map (legacy_line r) slots)"

definition create_recipe_text :: "literal_eval \<Rightarrow> row \<Rightarrow> string" where
  "create_recipe_text le r =
     recipe_header r @
     (case r ''ingredients'' of
        None \<Rightarrow> recipe_legacy r
      | Some s \<Rightarrow>
          if s \<noteq> []
          then (case recipe_try le r s of
                  Inr ls \<Rightarrow> ls
                | Inl e \<Rightarrow> ''- '' @ s @ NL)
          else recipe_legacy r)"

section \<open>\<open>clean_data\<close>\<close>

text \<open>
  A DataFrame is its column names, in order, and its rows. A cell that pandas holds as
  missing (NaN) is a column of the frame on which the row is \<open>None\<close>; \<open>fillna("")\<close>
  makes every missing cell the empty text.
\<close>

record dataframe =
  df_columns :: "string list"
  df_rows :: "row list"

text \<open>\<open>drop_duplicates(subset=[k])\<close> keeps the first row of each key; missing keys are equal.\<close>

fun drop_duplicates :: "string \<Rightarrow> string option list \<Rightarrow> row list \<Rightarrow> row list" where
  "drop_duplicates k seen [] = []"
| "drop_duplicates k seen (r # rs) =
     (if r k \<in> set seen then drop_duplicates k seen rs
      else r # drop_duplicates k (r k # seen) rs)"

definition fillna :: "string list \<Rightarrow> row \<Rightarrow> row" where
  "fillna cols r = (\<lambda>c. if c \<in> set cols then Some (cell r c) else None)"

definition pick_col :: "string list \<Rightarrow> string \<Rightarrow> string \<Rightarrow> string" where
  "pick_col cols new old = (if new \<in> set cols then new else old)"

definition text_part :: "string list \<Rightarrow> row \<Rightarrow> string \<Rightarrow> string" where
  "text_part cols r c = (if c \<in> set cols then cell r c @ '' '' else [])"

text \<open>The text accumulated in \<open>df['combined_text']\<close> for one row, before the cleaning.\<close>

definition combined_raw :: "string list \<Rightarrow> row \<Rightarrow> string" where
  "combined_raw cols r =
     text_part cols r (pick_col cols ''name'' ''strDrink'')
     @ text_part cols r (pick_col cols ''category'' ''strCategory'')
     @ text_part cols r (pick_col cols ''alcoholic'' ''strAlcoholic'')
     @ text_part cols r (pick_col cols ''glassType'' ''strGlass'')
     @ (if ''ingredients'' \<in> set cols then cell r ''ingredients'' @ '' ''
        else concat (map (\<lambda>c. cell r c @ '' '')
               (filter (\<lambda>c. startswith c ''strIngredient'') cols)))
     @ text_part cols r (pick_col cols ''instructions'' ''strInstructions'')"

definition combined_text :: "string list \<Rightarrow> row \<Rightarrow> string" where
  "combined_text cols r = strip (collapse_ws (combined_raw cols r))"

datatype message =
    Loaded nat string | Error_loading
  | Detected string string string string | After_duplicates nat | Sample string
  | Error_connecting | Generating nat | Storing | Stored nat | Success nat | Error_storing

text \<open>
  The rows of the frame \<open>clean_data\<close> returns: duplicates dropped (when the name column
  exists), cells filled, and \<open>combined_text\<close> set on every row.
\<close>

definition cleaned_columns :: "string list \<Rightarrow> string list" where
  "cleaned_columns cols =
     (if ''combined_text'' \<in> set cols then cols else cols @ [''combined_text''])"

definition cleaned_rows :: "dataframe \<Rightarrow> row list" where
  "cleaned_rows df =
     (let cols = df_columns df;
          k = pick_col cols ''name'' ''strDrink'';
          rs = (if k \<in> set cols then drop_duplicates k [] (df_rows df) else df_rows df);
          cols' = cleaned_columns cols
      in map (\<lambda>r. (fillna cols r)
                     (''combined_text'' \<mapsto>
                        combined_text cols' ((fillna cols r)(''combined_text'' \<mapsto> [])))) rs)"

text \<open>
  \<open>clean_data\<close>: the messages it prints and its result. The last \<open>print\<close> reads
  \<open>iloc[0]\<close>, which raises on a frame without rows.
\<close>

definition clean_data :: "dataframe \<Rightarrow> message list \<times> (exn + dataframe)" where
  "clean_data df =
     (let cols = df_columns df;
          k = pick_col cols ''name'' ''strDrink'';
          detected = Detected k (pick_col cols ''category'' ''strCategory'')
                       (pick_col cols ''alcoholic'' ''strAlcoholic'')
                       (pick_col cols ''glassType'' ''strGlass'');
          rs = cleaned_rows df;
          dedup = (if k \<in> set cols then [After_duplicates (length rs)] else [])
      in case rs of
           [] \<Rightarrow> (detected # dedup, Inl IndexError)
         | r # _ \<Rightarrow>
             (detected # dedup @ [Sample (take 100 (cell r ''combined_text''))],
              Inr \<lparr>df_columns = cleaned_columns cols, df_rows = rs\<rparr>))"

section \<open>The store and \<open>store_cocktails\<close>\<close>

record stored_cocktail =
  sc_name :: string
  sc_ingredients :: string
  sc_recipe :: string
  sc_glass :: string
  sc_category :: string
  sc_alcoholic :: string
  sc_embedding :: "real list"

datatype event =
    Print message | Read_csv string
  | Connect | Cursor | Exec_delete | Encode "string list" | Exec_insert stored_cocktail
  | Commit | Rollback | Close_cursor | Close

text \<open>
  The column widths of table \<open>cocktails\<close> as \<open>setup_pgvector\<close> creates it
  (\<open>VARCHAR(255)\<close>, \<open>VARCHAR(100)\<close>, \<open>VARCHAR(50)\<close>, \<open>vector(384)\<close>): a server holding that
  table refuses a row that does not fit. A text fits \<open>VARCHAR(n)\<close> when whatever
  exceeds \<open>n\<close> characters is spaces only, which the server cuts off.
\<close>

definition varchar_fits :: "nat \<Rightarrow> string \<Rightarrow> bool" where
  "varchar_fits n s = list_all (\<lambda>c. c = CHR '' '') (drop n s)"

definition fits_table :: "stored_cocktail \<Rightarrow> bool" where
  "fits_table sc =
     (varchar_fits 255 (sc_name sc) \<and> varchar_fits 100 (sc_glass sc)
      \<and> varchar_fits 100 (sc_category sc) \<and> varchar_fits 50 (sc_alcoholic sc)
      \<and> length (sc_embedding sc) = 384)"

text \<open>
  The collaborators the pipeline calls: the file system (\<open>pd.read_csv\<close>, \<open>None\<close> when it
  raises), \<open>ast.literal_eval\<close>, the Embedder (\<open>model.encode\<close>, \<open>None\<close> when it raises) and
  the database server, which may refuse the connection, the \<open>DELETE\<close>, the \<open>INSERT\<close>
  number \<open>idx\<close> or the commit. \<open>rollback_ok\<close> and \<open>close_ok\<close> answer the two calls of
  the exception handler, \<open>connection.rollback()\<close> and \<open>connection.close()\<close>, which raise
  when the connection has been lost. The two \<open>close()\<close> calls that follow an
  acknowledged commit are taken to succeed.
\<close>

record env =
  read_csv :: "string \<Rightarrow> dataframe option"
  literal_eval :: literal_eval
  encode :: "string list \<Rightarrow> real list list option"
  connect_ok :: bool
  delete_ok :: bool
  insert_ok :: "nat \<Rightarrow> stored_cocktail \<Rightarrow> bool"
  commit_ok :: bool
  rollback_ok :: bool
  close_ok :: bool

text \<open>
  The world outside the process: the committed content of table \<open>cocktails\<close> and the
  sequence of calls and messages so far.
\<close>

record world =
  committed :: "stored_cocktail list"
  trace :: "event list"

definition emit :: "event list \<Rightarrow> world \<Rightarrow> world" where
  "emit es w = w\<lparr>trace := trace w @ es\<rparr>"

text \<open>The events a call has added to the trace, given the worlds before and after it.\<close>

definition new_events :: "world \<Rightarrow> world \<Rightarrow> event list" where
  "new_events w w' = drop (length (trace w)) (trace w')"

text \<open>The events the insert loop issues: an \<open>INSERT\<close> or a progress message.\<close>

fun loop_event :: "event \<Rightarrow> bool" where
  "loop_event (Exec_insert sc) = True"
| "loop_event (Print (Stored n)) = True"
| "loop_event e = False"

definition make_stored :: "literal_eval \<Rightarrow> row \<Rightarrow> real list \<Rightarrow> stored_cocktail" where
  "make_stored f r e =
     \<lparr>sc_name = cell r (col_or r ''name'' ''strDrink''),
      sc_ingredients = get_ingredents_list f r,
      sc_recipe = create_recipe_text f r,
      sc_glass = cell r (col_or r ''glassType'' ''strGlass''),
      sc_category = cell r (col_or r ''category'' ''strCategory''),
      sc_alcoholic = cell r (col_or r ''alcoholic'' ''strAlcoholic''),
      sc_embedding = e\<rparr>"

text \<open>
  The \<open>for idx, (_, row)\<close> loop. \<open>pending\<close> is the table as the open transaction sees it.
  The result is the exception that left the loop, if any, with the pending table and
  the events issued.
\<close>

fun insert_rows ::
  "env \<Rightarrow> real list list \<Rightarrow> nat \<Rightarrow> row list \<Rightarrow> stored_cocktail list \<Rightarrow> event list
     \<Rightarrow> exn option \<times> stored_cocktail list \<times> event list" where
  "insert_rows ev embs idx [] pending es = (None, pending, es)"
| "insert_rows ev embs idx (r # rs) pending es =
     (if idx < length embs
      then (let sc = make_stored (literal_eval ev) r (embs ! idx) in
            if insert_ok ev idx sc
            then insert_rows ev embs (Suc idx) rs (pending @ [sc])
                   (es @ Exec_insert sc
                       # (if Suc idx mod 100 = 0 then [Print (Stored (Suc idx))] else []))
            else (Some DatabaseError, pending, es @ [Exec_insert sc]))
      else (Some IndexError, pending, es))"

text \<open>\<open>df['combined_text'].to_list()\<close>, the argument of the one call of the Embedder.\<close>

definition combined_texts :: "dataframe \<Rightarrow> string list" where
  "combined_texts df = map (\<lambda>r. cell r ''combined_text'') (df_rows df)"

text \<open>
  The \<open>try\<close> block of \<open>store_cocktails\<close>, from \<open>get_connection\<close> to the last \<open>print\<close>:
  the exception that ended it, if any, and the world it leaves.
\<close>

definition store_try :: "env \<Rightarrow> dataframe \<Rightarrow> world \<Rightarrow> exn option \<times> world" where
  "store_try ev df w =
     (if \<not> connect_ok ev
      then (Some AttributeError, emit [Connect, Print Error_connecting] w)
      else if \<not> delete_ok ev
      then (Some DatabaseError, emit [Connect, Cursor, Exec_delete] w)
      else if ''combined_text'' \<notin> set (df_columns df)
      then (Some KeyError,
            emit [Connect, Cursor, Exec_delete, Print (Generating (length (df_rows df)))] w)
      else
        (let texts = combined_texts df;
             w1 = emit [Connect, Cursor, Exec_delete,
                        Print (Generating (length (df_rows df))), Encode texts] w
         in case encode ev texts of
              None \<Rightarrow> (Some EncodeError, w1)
            | Some embs \<Rightarrow>
                (case insert_rows ev embs 0 (df_rows df) [] [Print Storing] of
                   (Some e, pending, es) \<Rightarrow> (Some e, emit es w1)
                 | (None, pending, es) \<Rightarrow>
                     if commit_ok ev
                     then (None,
                           (emit (es @ [Commit, Close_cursor, Close,
                                        Print (Success (length (df_rows df)))]) w1)
                             \<lparr>committed := pending\<rparr>)
                     else (Some DatabaseError, emit (es @ [Commit]) w1))))"

text \<open>
  The \<open>except\<close> block: it prints, then calls \<open>connection.rollback()\<close> and
  \<open>connection.close()\<close>, neither of them guarded. The name \<open>connection\<close> is always bound
  by then, to \<open>None\<close> when \<open>get_connection\<close> failed, and the call on \<open>None\<close> raises out
  of the handler; so does a rollback or a close that the lost connection refuses.
\<close>

definition store_except :: "env \<Rightarrow> world \<Rightarrow> (exn + unit) \<times> world" where
  "store_except ev w =
     (if \<not> connect_ok ev then (Inl AttributeError, emit [Print Error_storing] w)
      else if \<not> rollback_ok ev
      then (Inl DatabaseError, emit [Print Error_storing, Rollback] w)
      else if \<not> close_ok ev
      then (Inl DatabaseError, emit [Print Error_storing, Rollback, Close] w)
      else (Inr (), emit [Print Error_storing, Rollback, Close] w))"

text \<open>The events of the \<open>except\<close> block.\<close>

definition except_events :: "env \<Rightarrow> event list" where
  "except_events ev =
     Print Error_storing
       # (if connect_ok ev then Rollback # (if rollback_ok ev then [Close] else []) else [])"

definition store_cocktails :: "env \<Rightarrow> dataframe \<Rightarrow> world \<Rightarrow> (exn + unit) \<times> world" where
  "store_cocktails ev df w =
     (case store_try ev df w of
        (None, w') \<Rightarrow> (Inr (), w')
      | (Some e, w') \<Rightarrow> store_except ev w')"

section \<open>\<open>load_data\<close> and \<open>process_and_store\<close>\<close>

definition load_data :: "env \<Rightarrow> string \<Rightarrow> world \<Rightarrow> dataframe option \<times> world" where
  "load_data ev csv_path w =
     (case read_csv ev csv_path of
        None \<Rightarrow> (None, emit [Read_csv csv_path, Print Error_loading] w)
      | Some df \<Rightarrow>
          (Some df, emit [Read_csv csv_path, Print (Loaded (length (df_rows df)) csv_path)] w))"

definition process_and_store :: "env \<Rightarrow> string \<Rightarrow> world \<Rightarrow> (exn + unit) \<times> world" where
  "process_and_store ev csv_path w =
     (case load_data ev csv_path w of
        (None, w1) \<Rightarrow> (Inr (), w1)
      | (Some df, w1) \<Rightarrow>
          (case clean_data df of
             (msgs, Inl e) \<Rightarrow> (Inl e, emit (map Print msgs) w1)
           | (msgs, Inr df') \<Rightarrow> store_cocktails ev df' (emit (map Print msgs) w1)))"

section \<open>\<open>handle_mixed_search\<close>\<close>

text \<open>
  What the four widgets and the button return on one run of the page, and the keyword
  arguments of a call of \<open>recommend_by_mixed_preferences\<close>. The recommender is a
  collaborator: a parameter \<open>recommend\<close>.
\<close>

record mixed_widgets =
  w_ingredients :: "string list"
  w_styles :: "string list"
  w_occasion :: string
  w_alcoholic_pref :: string
  w_button :: bool

record mixed_call =
  arg_ingredients :: "string list option"
  arg_style :: "string list option"
  arg_occasion :: "string option"
  arg_alcoholic_preference :: "string option"
  arg_limit :: nat

definition or_None :: "'a list \<Rightarrow> 'a list option" where
  "or_None xs = (if xs \<noteq> [] then Some xs else None)"

text \<open>The calls issued to the recommender, and the value returned to \<open>main\<close>.\<close>

definition handle_mixed_search ::
  "(mixed_call \<Rightarrow> 'r list) \<Rightarrow> mixed_widgets \<Rightarrow> mixed_call list \<times> 'r list" where
  "handle_mixed_search recommend ws =
     (if w_ingredients ws \<noteq> [] \<or> w_styles ws \<noteq> [] \<or> w_occasion ws \<noteq> []
         \<or> w_alcoholic_pref ws \<noteq> []
      then (if w_button ws
            then (let c = \<lparr>arg_ingredients = or_None (w_ingredients ws),
                           arg_style = or_None (w_styles ws),
                           arg_occasion = or_None (w_occasion ws),
                           arg_alcoholic_preference = or_None (w_alcoholic_pref ws),
                           arg_limit = 10\<rparr>
                  in ([c], recommend c))
            else ([], []))
      else ([], []))"

section \<open>Sample inputs\<close>

text \<open>
  A two-column frame as \<open>clean_data\<close> leaves it, a store that already holds one
  cocktail, and four sets of collaborators: one where every call succeeds, one whose
  Embedder returns vectors of dimension 1 (which the \<open>vector(384)\<close> column refuses), one
  whose server is unreachable, and one whose connection is lost at the first insert,
  so that the insert and the handler's rollback both raise. \<open>sample_eval\<close> parses three
  list literals and raises on any other text.
\<close>

definition sample_df :: dataframe where
  "sample_df = \<lparr>df_columns = [''name'', ''combined_text''],
                 df_rows = [[''name'' \<mapsto> ''Negroni'', ''combined_text'' \<mapsto> ''Negroni'']]\<rparr>"

definition old_row :: stored_cocktail where
  "old_row = \<lparr>sc_name = ''Mojito'', sc_ingredients = ''Rum'', sc_recipe = [],
               sc_glass = [], sc_category = [], sc_alcoholic = [], sc_embedding = []\<rparr>"

definition sample_world :: world where
  "sample_world = \<lparr>committed = [old_row], trace = []\<rparr>"

definition sample_eval :: literal_eval where
  \<open>sample_eval s =
     (if s = ''["Gin","Vermouth"]'' then Some [PStr ''Gin'', PStr ''Vermouth'']
      else if s = ''["2 oz"]'' then Some [PStr ''2 oz'']
      else if s = ''["nan"]'' then Some [PStr ''nan'']
      else None)\<close>

definition sample_env :: env where
  "sample_env = \<lparr>read_csv = (\<lambda>p. None), literal_eval = sample_eval,
                  encode = (\<lambda>ts. Some (map (\<lambda>t. replicate 384 0) ts)),
                  connect_ok = True, delete_ok = True,
                  insert_ok = (\<lambda>i. fits_table), commit_ok = True,
                  rollback_ok = True, close_ok = True\<rparr>"

definition short_vector_env :: env where
  "short_vector_env = sample_env\<lparr>encode := (\<lambda>ts. Some (map (\<lambda>t. [0]) ts))\<rparr>"

definition unreachable_env :: env where
  "unreachable_env = sample_env\<lparr>connect_ok := False\<rparr>"

definition lost_connection_env :: env where
  "lost_connection_env = sample_env\<lparr>insert_ok := (\<lambda>i sc. False), rollback_ok := False\<rparr>"

definition gin_row :: row where
  \<open>gin_row = [''ingredients'' \<mapsto> ''["Gin","Vermouth"]'',
              ''ingredientMeasures'' \<mapsto> ''["2 oz"]'']\<close>

definition malformed_row :: row where
  \<open>malformed_row = [''ingredients'' \<mapsto> ''["Gin", Vermouth'']\<close>

definition legacy_row :: row where
  "legacy_row = [''strIngredient1'' \<mapsto> ''Gin'', ''strIngredient2'' \<mapsto> ''nan'',
                 ''strMeasure1'' \<mapsto> '' '']"

definition raw_df :: dataframe where
  "raw_df = \<lparr>df_columns = [''name'', ''ingredients''],
              df_rows = [[''name'' \<mapsto> ''Gin  Fizz'', ''ingredients'' \<mapsto> '' Gin '']]\<rparr>"

section \<open>Whitespace: \<open>strip\<close> and \<open>collapse_ws\<close>\<close>

lemma collapse_ws_chars: "c \<in> set (collapse_ws s) \<Longrightarrow> isspace c \<Longrightarrow> c = CHR '' ''"
  by (induction s rule: collapse_ws.induct) (auto split: if_splits)

lemma collapse_ws_hd:
  "collapse_ws s \<noteq> [] \<Longrightarrow> isspace (hd (collapse_ws s)) \<Longrightarrow> s \<noteq> [] \<and> isspace (hd s)"
  by (cases s) (auto split: if_splits)

lemma no_ws_run_Cons:
  "no_ws_run (c # cs) = ((cs = [] \<or> \<not> (isspace c \<and> isspace (hd cs))) \<and> no_ws_run cs)"
  by (cases cs) auto

lemma collapse_ws_no_run: "no_ws_run (collapse_ws s)"
proof (induction s rule: collapse_ws.induct)
  case 1
  show ?case by simp
next
  case (2 c cs)
  show ?case
  proof (cases "isspace c")
    case True
    have "collapse_ws (dropWhile isspace cs) = [] \<or>
          \<not> isspace (hd (collapse_ws (dropWhile isspace cs)))"
      using collapse_ws_hd [of "dropWhile isspace cs"] hd_dropWhile [of isspace cs] by blast
    with True 2 show ?thesis by (simp add: no_ws_run_Cons)
  next
    case False
    with 2 show ?thesis by (simp add: no_ws_run_Cons)
  qed
qed

lemma no_ws_run_append_left: "no_ws_run (xs @ ys) \<Longrightarrow> no_ws_run ys"
  by (induction xs) (auto simp: no_ws_run_Cons)

lemma no_ws_run_append_right: "no_ws_run (xs @ ys) \<Longrightarrow> no_ws_run xs"
  by (induction xs) (auto simp: no_ws_run_Cons hd_append split: if_splits)

lemma no_ws_run_nth:
  "no_ws_run t \<Longrightarrow> Suc i < length t \<Longrightarrow> \<not> (isspace (t ! i) \<and> isspace (t ! Suc i))"
proof (induction t arbitrary: i rule: no_ws_run.induct)
  case (1 c d cs)
  then show ?case by (cases i) auto
qed simp_all

text \<open>\<open>strip\<close> cuts a prefix and a suffix off the text.\<close>

lemma strip_decomp: "\<exists>p q. s = p @ strip s @ q"
proof -
  let ?a = "dropWhile isspace s"
  have 1: "s = takeWhile isspace s @ ?a" by simp
  have "rev ?a = takeWhile isspace (rev ?a) @ dropWhile isspace (rev ?a)" by simp
  then have "?a = rev (dropWhile isspace (rev ?a)) @ rev (takeWhile isspace (rev ?a))"
    by (metis rev_append rev_rev_ident)
  then have "?a = strip s @ rev (takeWhile isspace (rev ?a))" by (simp add: strip_def)
  with 1 show ?thesis by metis
qed

lemma strip_ends:
  assumes "strip s \<noteq> []"
  shows "\<not> isspace (hd (strip s))" and "\<not> isspace (last (strip s))"
proof -
  let ?a = "dropWhile isspace s"
  let ?b = "dropWhile isspace (rev ?a)"
  from assms have b: "?b \<noteq> []" unfolding strip_def by (metis rev.simps(1))
  have a: "?a \<noteq> []"
  proof
    assume e: "?a = []"
    have "dropWhile isspace (rev []) = ([] :: string)" by simp
    with e b show False by metis
  qed
  have "last (strip s) = hd ?b" using b by (simp add: strip_def last_rev)
  then show "\<not> isspace (last (strip s))" using b hd_dropWhile [of isspace "rev ?a"] by simp
  have "rev ?a = takeWhile isspace (rev ?a) @ ?b" by simp
  then have "last (rev ?a) = last ?b" using b by (metis last_appendR)
  then have "hd (strip s) = hd ?a" using a b by (simp add: strip_def hd_rev last_rev)
  then show "\<not> isspace (hd (strip s))" using a hd_dropWhile [of isspace s] by simp
qed

lemma dropWhile_id: "xs = [] \<or> \<not> P (hd xs) \<Longrightarrow> dropWhile P xs = xs"
  by (cases xs) auto

lemma strip_id: "t = [] \<or> (\<not> isspace (hd t) \<and> \<not> isspace (last t)) \<Longrightarrow> strip t = t"
  by (cases "t = []") (auto simp: strip_def dropWhile_id hd_rev)

lemma strip_strip: "strip (strip s) = strip s"
  using strip_ends [of s] by (intro strip_id) blast

lemma collapse_ws_id:
  "no_ws_run t \<Longrightarrow> (\<forall>c\<in>set t. isspace c \<longrightarrow> c = CHR '' '') \<Longrightarrow> collapse_ws t = t"
proof (induction t rule: collapse_ws.induct)
  case 1
  show ?case by simp
next
  case (2 c cs)
  from "2.prems"(1) have tl: "no_ws_run cs" by (simp add: no_ws_run_Cons)
  from "2.prems"(2) have chars: "\<forall>c\<in>set cs. isspace c \<longrightarrow> c = CHR '' ''" by simp
  show ?case
  proof (cases "isspace c")
    case True
    with "2.prems"(2) have c: "c = CHR '' ''" by simp
    from "2.prems"(1) True have "cs = [] \<or> \<not> isspace (hd cs)"
      by (auto simp: no_ws_run_Cons)
    then have d: "dropWhile isspace cs = cs" by (rule dropWhile_id)
    from "2.IH"(1) [OF True] tl chars d have "collapse_ws cs = cs" by simp
    with True c d show ?thesis by simp
  next
    case False
    from "2.IH"(2) [OF False] tl chars have "collapse_ws cs = cs" by simp
    with False show ?thesis by simp
  qed
qed

text \<open>The shape of a text that was collapsed and then stripped.\<close>

lemma normalised_shape:
  "strip (collapse_ws (strip (collapse_ws s))) = strip (collapse_ws s)
   \<and> (\<forall>i<length (strip (collapse_ws s)). isspace (strip (collapse_ws s) ! i) \<longrightarrow>
         strip (collapse_ws s) ! i = CHR '' '' \<and> 0 < i
         \<and> Suc i < length (strip (collapse_ws s))
         \<and> \<not> isspace (strip (collapse_ws s) ! Suc i))"
proof -
  define t where "t = strip (collapse_ws s)"
  obtain p q where pq: "collapse_ws s = p @ t @ q"
    using strip_decomp [of "collapse_ws s"] t_def by blast
  have run: "no_ws_run t"
    using collapse_ws_no_run [of s] pq no_ws_run_append_left no_ws_run_append_right
    by metis
  have chars: "\<forall>c\<in>set t. isspace c \<longrightarrow> c = CHR '' ''"
  proof (intro ballI impI)
    fix c assume "c \<in> set t" and sp: "isspace c"
    then have "c \<in> set (collapse_ws s)" using pq by simp
    then show "c = CHR '' ''" using sp by (rule collapse_ws_chars)
  qed
  have ends: "t \<noteq> [] \<Longrightarrow> \<not> isspace (hd t) \<and> \<not> isspace (last t)"
    using strip_ends [of "collapse_ws s"] t_def by simp
  have "collapse_ws t = t" using run chars by (rule collapse_ws_id)
  moreover have "strip t = t" using ends by (intro strip_id) blast
  ultimately have stable: "strip (collapse_ws t) = t" by simp
  have "\<forall>i<length t. isspace (t ! i) \<longrightarrow>
           t ! i = CHR '' '' \<and> 0 < i \<and> Suc i < length t \<and> \<not> isspace (t ! Suc i)"
  proof (intro allI impI)
    fix i assume i: "i < length t" and sp: "isspace (t ! i)"
    then have ne: "t \<noteq> []" by auto
    have a: "t ! i = CHR '' ''" using chars i sp by simp
    have "\<not> isspace (t ! 0)" using ends [OF ne] ne by (simp add: hd_conv_nth)
    with sp have b: "0 < i" by (cases i) auto
    have "\<not> isspace (t ! (length t - 1))" using ends [OF ne] ne by (simp add: last_conv_nth)
    then have "i \<noteq> length t - 1" using sp by metis
    with i have c: "Suc i < length t" by arith
    have d: "\<not> isspace (t ! Suc i)" using no_ws_run_nth [OF run c] sp by simp
    from a b c d show "t ! i = CHR '' '' \<and> 0 < i \<and> Suc i < length t \<and> \<not> isspace (t ! Suc i)"
      by simp
  qed
  with stable show ?thesis unfolding t_def by simp
qed

lemma startswith_bracket_strip:
  assumes "startswith s ''[''"
  shows "strip s \<noteq> []" and "s \<noteq> []"
proof -
  from assms obtain cs where s: "s = CHR ''['' # cs"
    by (cases s) (auto simp: startswith_def)
  have nb: "\<not> isspace (CHR ''['')" by (simp add: isspace_def)
  show "s \<noteq> []" using s by simp
  have "dropWhile isspace s = s" using s nb by simp
  then have "strip s = rev (dropWhile isspace (rev s))" by (simp add: strip_def)
  moreover have "dropWhile isspace (rev s) \<noteq> []"
    using s nb by (auto simp: dropWhile_eq_Nil_conv)
  ultimately show "strip s \<noteq> []" by simp
qed

section \<open>The mixed-search handler\<close>

text \<open>
  C8. When none of the four signals of a Mixed request is populated (no ingredient and
  no style selected, empty occasion, empty alcoholic preference),
  \<open>handle_mixed_search\<close> issues no call of \<open>recommend_by_mixed_preferences\<close> and returns
  the empty list, whatever the button and the recommender would do.
\<close>

theorem handle_mixed_search_empty:
  assumes "w_ingredients ws = []" and "w_styles ws = []"
    and "w_occasion ws = []" and "w_alcoholic_pref ws = []"
  shows "handle_mixed_search recommend ws = ([], [])"
  using assms by (simp add: handle_mixed_search_def)

theorem handle_mixed_search_empty_witness:
  "handle_mixed_search (\<lambda>c. [c])
     \<lparr>w_ingredients = [], w_styles = [], w_occasion = [], w_alcoholic_pref = [],
      w_button = True\<rparr> = ([], [])"
  using handle_mixed_search_empty [where ws = "\<lparr>w_ingredients = [], w_styles = [],
      w_occasion = [], w_alcoholic_pref = [], w_button = True\<rparr>" and recommend = "\<lambda>c. [c]"]
  by simp

section \<open>Loading\<close>

text \<open>
  C10. When \<open>load_data\<close> fails on \<open>csv_path\<close> (reading the file raises, so it returns
  \<open>None\<close>), \<open>process_and_store\<close> returns normally having only tried to read the file
  and printed the loading error: no database call is issued and the committed corpus
  is the one it found.
\<close>

theorem process_and_store_load_failure:
  assumes "read_csv ev csv_path = None"
  shows "process_and_store ev csv_path w
           = (Inr (), emit [Read_csv csv_path, Print Error_loading] w)
       \<and> committed (snd (process_and_store ev csv_path w)) = committed w
       \<and> new_events w (snd (process_and_store ev csv_path w))
           = [Read_csv csv_path, Print Error_loading]"
  using assms by (simp add: process_and_store_def load_data_def emit_def new_events_def)

theorem process_and_store_load_failure_witness:
  "read_csv sample_env ''data/final_cocktails.csv'' = None
   \<and> process_and_store sample_env ''data/final_cocktails.csv'' sample_world
       = (Inr (), emit [Read_csv ''data/final_cocktails.csv'', Print Error_loading] sample_world)
   \<and> committed (snd (process_and_store sample_env ''data/final_cocktails.csv'' sample_world))
       = committed sample_world"
proof -
  have h: "read_csv sample_env ''data/final_cocktails.csv'' = None"
    by (simp add: sample_env_def)
  from h process_and_store_load_failure [OF h, of sample_world] show ?thesis by blast
qed

section \<open>The combined text\<close>

lemma cleaned_rows_shape:
  assumes "r \<in> set (cleaned_rows df)"
  shows "\<exists>r0. r = (fillna (df_columns df) r0)(''combined_text'' \<mapsto>
            combined_text (cleaned_columns (df_columns df))
              ((fillna (df_columns df) r0)(''combined_text'' \<mapsto> [])))"
  using assms by (auto simp: cleaned_rows_def Let_def)

lemma clean_data_result:
  assumes "clean_data df = (msgs, Inr df')"
  shows "df_columns df' = cleaned_columns (df_columns df)" and "df_rows df' = cleaned_rows df"
  using assms by (auto simp: clean_data_def Let_def split: list.splits)

text \<open>
  C7. Every row of the frame \<open>clean_data\<close> returns carries a \<open>combined_text\<close> \<open>t\<close> that is
  a function of the row's other cells (composing it again from the row gives the same
  characters), that cleaning leaves unchanged (collapsing and stripping \<open>t\<close> gives \<open>t\<close>),
  and in which every whitespace character is a single space that is neither first nor
  last nor followed by another whitespace character.
\<close>

theorem clean_data_combined_text:
  assumes "clean_data df = (msgs, Inr df')" and "r \<in> set (df_rows df')"
  shows "\<exists>t. r ''combined_text'' = Some t
           \<and> combined_text (df_columns df') (r(''combined_text'' \<mapsto> [])) = t
           \<and> strip (collapse_ws t) = t
           \<and> (\<forall>i<length t. isspace (t ! i) \<longrightarrow>
                 t ! i = CHR '' '' \<and> 0 < i \<and> Suc i < length t \<and> \<not> isspace (t ! Suc i))"
proof -
  let ?cols = "df_columns df"
  from assms clean_data_result [OF assms(1)] have "r \<in> set (cleaned_rows df)" by simp
  then obtain r0 where r: "r = (fillna ?cols r0)(''combined_text'' \<mapsto>
      combined_text (cleaned_columns ?cols) ((fillna ?cols r0)(''combined_text'' \<mapsto> [])))"
    using cleaned_rows_shape by blast
  let ?t = "combined_text (cleaned_columns ?cols) ((fillna ?cols r0)(''combined_text'' \<mapsto> []))"
  have 1: "r ''combined_text'' = Some ?t" by (subst r) simp
  have "r(''combined_text'' \<mapsto> []) = (fillna ?cols r0)(''combined_text'' \<mapsto> [])"
    by (subst r) simp
  then have 2: "combined_text (df_columns df') (r(''combined_text'' \<mapsto> [])) = ?t"
    using clean_data_result(1) [OF assms(1)] by simp
  have 3: "strip (collapse_ws ?t) = ?t
      \<and> (\<forall>i<length ?t. isspace (?t ! i) \<longrightarrow>
             ?t ! i = CHR '' '' \<and> 0 < i \<and> Suc i < length ?t \<and> \<not> isspace (?t ! Suc i))"
    unfolding combined_text_def by (rule normalised_shape)
  from 1 2 3 show ?thesis by blast
qed

theorem clean_data_combined_text_witness:
  "\<exists>msgs df' r. clean_data raw_df = (msgs, Inr df') \<and> r \<in> set (df_rows df')
     \<and> r ''combined_text'' = Some ''Gin Fizz Gin''
     \<and> (\<exists>t. r ''combined_text'' = Some t
           \<and> combined_text (df_columns df') (r(''combined_text'' \<mapsto> [])) = t
           \<and> strip (collapse_ws t) = t
           \<and> (\<forall>i<length t. isspace (t ! i) \<longrightarrow>
                 t ! i = CHR '' '' \<and> 0 < i \<and> Suc i < length t \<and> \<not> isspace (t ! Suc i)))"
proof -
  obtain msgs df' where c: "clean_data raw_df = (msgs, Inr df')"
    by (simp add: clean_data_def cleaned_rows_def raw_df_def pick_col_def Let_def)
  then have rows: "df_rows df' = cleaned_rows raw_df"
    by (auto simp: clean_data_def Let_def split: list.splits)
  define r where "r = hd (df_rows df')"
  have m: "r \<in> set (df_rows df')"
    unfolding r_def rows by (simp add: cleaned_rows_def raw_df_def pick_col_def Let_def)
  have v: "r ''combined_text'' = Some ''Gin Fizz Gin''"
    unfolding r_def rows
    by (simp add: cleaned_rows_def raw_df_def pick_col_def Let_def cleaned_columns_def
        combined_text_def combined_raw_def text_part_def fillna_def cell_def strip_def
        isspace_def startswith_def)
  from clean_data_combined_text [OF c m] c m v show ?thesis by blast
qed

section \<open>Ingredients and recipe of one row\<close>

text \<open>
  C5. When the \<open>ingredients\<close> field of a row starts with \<open>[\<close> and \<open>ast.literal_eval\<close>
  raises on it, the exception stays inside both functions: \<open>get_ingredents_list\<close>
  returns the field, stripped, as its one ingredient, and \<open>create_recipe_text\<close> returns
  the header followed by the one line \<open>- {field}\<close>.
\<close>

theorem malformed_literal_fallback:
  assumes "r ''ingredients'' = Some s" and "startswith s ''[''" and "le s = None"
  shows "ingredients_try le s = Inl ValueError
       \<and> ingredient_items le r = [strip s]
       \<and> get_ingredents_list le r = strip s \<and> strip s \<noteq> []
       \<and> recipe_try le r s = Inl ValueError
       \<and> create_recipe_text le r = recipe_header r @ ''- '' @ s @ NL"
  using assms startswith_bracket_strip [OF assms(2)]
  by (simp add: ingredients_try_def get_ingredents_list_def ingredient_items_def
      recipe_try_def create_recipe_text_def)

theorem malformed_literal_fallback_witness:
  \<open>get_ingredents_list sample_eval malformed_row = strip ''["Gin", Vermouth''
   \<and> create_recipe_text sample_eval malformed_row
       = recipe_header malformed_row @ ''- '' @ ''["Gin", Vermouth'' @ NL\<close>
  using malformed_literal_fallback [where r = malformed_row
      and s = \<open>''["Gin", Vermouth''\<close> and le = sample_eval]
  by (simp add: malformed_row_def sample_eval_def startswith_def)

text \<open>
  C4. For a row whose \<open>ingredients\<close> field is a list literal that parses to
  \<open>["Gin", "Vermouth"]\<close> and whose \<open>ingredientMeasures\<close> field is a list literal that
  parses to the shorter \<open>["2 oz"]\<close>, the recipe is the header followed by the line
  \<open>- 2 oz Gin\<close> and then the line \<open>- Vermouth\<close>.
\<close>

theorem recipe_shorter_measures:
  assumes "r ''ingredients'' = Some s" and "startswith s ''[''"
    and "le s = Some [PStr ''Gin'', PStr ''Vermouth'']"
    and "r ''ingredientMeasures'' = Some m" and "startswith m ''[''"
    and "le m = Some [PStr ''2 oz'']"
  shows "create_recipe_text le r =
           recipe_header r @ ''- 2 oz Gin'' @ NL @ ''- Vermouth'' @ NL"
proof -
  have "new_lines [PStr ''Gin'', PStr ''Vermouth''] [PStr ''2 oz'']
          = ''- 2 oz Gin'' @ NL @ ''- Vermouth'' @ NL"
    by (simp add: new_lines_def new_line_def keep_new_def strip_def isspace_def)
  with assms startswith_bracket_strip(2) [OF assms(2)] startswith_bracket_strip(2) [OF assms(5)]
  show ?thesis by (simp add: create_recipe_text_def recipe_try_def)
qed

theorem recipe_shorter_measures_witness:
  "create_recipe_text sample_eval gin_row
     = recipe_header gin_row @ ''- 2 oz Gin'' @ NL @ ''- Vermouth'' @ NL"
  using recipe_shorter_measures [where r = gin_row and s = \<open>''["Gin","Vermouth"]''\<close>
      and le = sample_eval and m = \<open>''["2 oz"]''\<close>]
  by (simp add: gin_row_def sample_eval_def startswith_def)

text \<open>
  The legacy branch renders an ingredient whose measure is absent or blank without a
  measure.
\<close>

lemma legacy_line_blank_measure:
  assumes "keep_legacy (r (''strIngredient'' @ i))"
    and "r (''strMeasure'' @ i) = None \<or> (\<exists>m. r (''strMeasure'' @ i) = Some m \<and> strip m = [])"
  shows "legacy_line r i = ''- '' @ cell r (''strIngredient'' @ i) @ NL"
  using assms by (auto simp: legacy_line_def keep_legacy_def)

text \<open>
  C3. The new-shape branch on the row with \<open>ingredients\<close> \<open>Gin\<close> and a measure that is
  one space: the measure passes the test of line 154, which unlike the legacy branch
  does not ask for a non-empty stripped text, and the line is rendered with the blank
  measure between the dash and the ingredient.
\<close>

theorem create_recipe_text_blank_measure:
  "create_recipe_text le [''ingredients'' \<mapsto> ''Gin'', ''ingredientMeasures'' \<mapsto> '' '']
     = recipe_header [''ingredients'' \<mapsto> ''Gin'', ''ingredientMeasures'' \<mapsto> '' '']
       @ ''-   Gin'' @ NL"
  by (simp add: create_recipe_text_def recipe_try_def startswith_def new_lines_def
      new_line_def keep_new_def strip_def isspace_def)

lemma ingredients_legacy_length: "length (ingredients_legacy r) \<le> 15"
proof -
  have "length (ingredients_legacy r) \<le> length slots"
    unfolding ingredients_legacy_def by simp
  also have "length slots = 15" by (simp add: slots_def)
  finally show ?thesis .
qed

lemma ingredients_legacy_items:
  assumes "x \<in> set (ingredients_legacy r)"
  shows "strip x \<noteq> [] \<and> x \<noteq> ''nan''"
proof -
  from assms obtain i where k: "keep_legacy (r (''strIngredient'' @ i))"
    and x: "x = strip (cell r (''strIngredient'' @ i))"
    by (auto simp: ingredients_legacy_def)
  from k x show ?thesis
    by (auto simp: keep_legacy_def cell_def strip_strip split: option.splits)
qed

lemma ingredients_try_items:
  assumes "ingredients_try le s = Inr xs" and "x \<in> set xs"
  shows "strip x \<noteq> []"
  using assms
  by (auto simp: ingredients_try_def keep_new_def strip_strip split: if_splits option.splits)

text \<open>
  C6, amended. \<open>get_ingredents_list\<close> joins the list \<open>ingredient_items\<close>. A row without a
  non-empty \<open>ingredients\<close> field yields at most 15 items, none of them \<open>nan\<close>; a row whose
  field is a list literal that parses yields at most as many items as the parsed
  sequence has elements, none of them \<open>None\<close>; a row whose field is a scalar or does not
  parse yields at most one item; and no item of any row is blank.
\<close>

theorem ingredient_items_bounds:
  "(r ''ingredients'' = None \<or> r ''ingredients'' = Some [] \<longrightarrow>
      length (ingredient_items le r) \<le> 15 \<and> ''nan'' \<notin> set (ingredient_items le r))
   \<and> (r ''ingredients'' = Some s \<and> startswith s ''['' \<and> le s = Some vs \<longrightarrow>
      length (ingredient_items le r) \<le> length vs
      \<and> ''None'' \<notin> set (ingredient_items le r))
   \<and> (r ''ingredients'' = Some s \<and> s \<noteq> [] \<and> (\<not> startswith s ''['' \<or> le s = None) \<longrightarrow>
      length (ingredient_items le r) \<le> 1)
   \<and> (\<forall>x\<in>set (ingredient_items le r). strip x \<noteq> [])"
proof (intro conjI impI ballI)
  assume "r ''ingredients'' = None \<or> r ''ingredients'' = Some []"
  then have eq: "ingredient_items le r = ingredients_legacy r"
    by (auto simp: ingredient_items_def)
  show "length (ingredient_items le r) \<le> 15"
    using eq ingredients_legacy_length by simp
  show "''nan'' \<notin> set (ingredient_items le r)"
    using eq ingredients_legacy_items by auto
next
  assume a: "r ''ingredients'' = Some s \<and> startswith s ''['' \<and> le s = Some vs"
  then have ne: "s \<noteq> []" using startswith_bracket_strip(2) by blast
  with a have eq: "ingredient_items le r = map (\<lambda>v. strip (py_str v)) (filter keep_new vs)"
    by (simp add: ingredient_items_def ingredients_try_def)
  show "length (ingredient_items le r) \<le> length vs" using eq by simp
  show "''None'' \<notin> set (ingredient_items le r)" using eq by (auto simp: keep_new_def)
next
  assume "r ''ingredients'' = Some s \<and> s \<noteq> [] \<and> (\<not> startswith s ''['' \<or> le s = None)"
  then show "length (ingredient_items le r) \<le> 1"
    by (auto simp: ingredient_items_def ingredients_try_def)
next
  fix x assume x: "x \<in> set (ingredient_items le r)"
  show "strip x \<noteq> []"
  proof (cases "r ''ingredients'' = None \<or> r ''ingredients'' = Some []")
    case True
    then have "ingredient_items le r = ingredients_legacy r"
      by (auto simp: ingredient_items_def)
    with x ingredients_legacy_items show ?thesis by auto
  next
    case False
    then obtain s where s: "r ''ingredients'' = Some s" "s \<noteq> []" by auto
    show ?thesis
    proof (cases "ingredients_try le s")
      case (Inl e)
      with s x show ?thesis
        by (auto simp: ingredient_items_def strip_strip split: if_splits)
    next
      case (Inr xs)
      with s x have "x \<in> set xs" by (simp add: ingredient_items_def)
      with Inr show ?thesis by (rule ingredients_try_items)
    qed
  qed
qed

theorem ingredient_items_bounds_witness:
  "length (ingredient_items sample_eval legacy_row) \<le> 15
   \<and> ''nan'' \<notin> set (ingredient_items sample_eval legacy_row)
   \<and> length (ingredient_items sample_eval gin_row) \<le> 2
   \<and> ''None'' \<notin> set (ingredient_items sample_eval gin_row)
   \<and> length (ingredient_items sample_eval malformed_row) \<le> 1
   \<and> ''Vermouth'' \<in> set (ingredient_items sample_eval gin_row)
   \<and> strip ''Vermouth'' \<noteq> []"
proof -
  have 0: "''Vermouth'' \<in> set (ingredient_items sample_eval gin_row)"
    by (simp add: ingredient_items_def ingredients_try_def gin_row_def sample_eval_def
        startswith_def keep_new_def strip_def isspace_def)
  have 1: "legacy_row ''ingredients'' = None" by (simp add: legacy_row_def)
  have 2: \<open>gin_row ''ingredients'' = Some ''["Gin","Vermouth"]''
      \<and> startswith ''["Gin","Vermouth"]'' ''[''
      \<and> sample_eval ''["Gin","Vermouth"]'' = Some [PStr ''Gin'', PStr ''Vermouth'']\<close>
    by (simp add: gin_row_def sample_eval_def startswith_def)
  have 3: \<open>malformed_row ''ingredients'' = Some ''["Gin", Vermouth''
      \<and> ''["Gin", Vermouth'' \<noteq> []
      \<and> (\<not> startswith ''["Gin", Vermouth'' ''[''
           \<or> sample_eval ''["Gin", Vermouth'' = None)\<close>
    by (simp add: malformed_row_def sample_eval_def)
  from 1 ingredient_items_bounds [where r = legacy_row and le = sample_eval]
  have a: "length (ingredient_items sample_eval legacy_row) \<le> 15
      \<and> ''nan'' \<notin> set (ingredient_items sample_eval legacy_row)"
    by blast
  from 2 ingredient_items_bounds [where r = gin_row and s = \<open>''["Gin","Vermouth"]''\<close>
      and le = sample_eval and vs = "[PStr ''Gin'', PStr ''Vermouth'']"]
  have "length (ingredient_items sample_eval gin_row) \<le> length [PStr ''Gin'', PStr ''Vermouth'']
      \<and> ''None'' \<notin> set (ingredient_items sample_eval gin_row)
      \<and> (\<forall>x\<in>set (ingredient_items sample_eval gin_row). strip x \<noteq> [])"
    by blast
  with 0 have b: "length (ingredient_items sample_eval gin_row) \<le> 2
      \<and> ''None'' \<notin> set (ingredient_items sample_eval gin_row)
      \<and> strip ''Vermouth'' \<noteq> []"
    by auto
  from 3 ingredient_items_bounds [where r = malformed_row
      and s = \<open>''["Gin", Vermouth''\<close> and le = sample_eval]
  have c: "length (ingredient_items sample_eval malformed_row) \<le> 1"
    by blast
  from 0 a b c show ?thesis by blast
qed

text \<open>
  C6 as stated fails: a scalar \<open>ingredients\<close> field \<open>None\<close>, a legacy slot \<open>None\<close> and
  a list element \<open>nan\<close> all reach the output.
\<close>

theorem sentinel_tokens_kept:
  \<open>get_ingredents_list sample_eval [''ingredients'' \<mapsto> ''None''] = ''None''
   \<and> get_ingredents_list sample_eval [''strIngredient1'' \<mapsto> ''None''] = ''None''
   \<and> get_ingredents_list sample_eval [''ingredients'' \<mapsto> ''["nan"]''] = ''nan''\<close>
  by (simp add: get_ingredents_list_def ingredient_items_def ingredients_try_def
      ingredients_legacy_def slots_def keep_legacy_def keep_new_def cell_def
      startswith_def strip_def isspace_def sample_eval_def)

section \<open>The insert loop\<close>

lemma insert_rows_events:
  assumes "insert_rows ev embs idx rs pending es = (res, p', es')"
  shows "\<exists>new. es' = es @ new \<and> (\<forall>e\<in>set new. loop_event e)"
  using assms
proof (induction rs arbitrary: idx pending es)
  case Nil
  then show ?case by simp
next
  case (Cons r rs)
  let ?sc = "make_stored (literal_eval ev) r (embs ! idx)"
  show ?case
  proof (cases "idx < length embs \<and> insert_ok ev idx ?sc")
    case True
    let ?es1 = "es @ Exec_insert ?sc
                  # (if Suc idx mod 100 = 0 then [Print (Stored (Suc idx))] else [])"
    from True Cons.prems
    have "insert_rows ev embs (Suc idx) rs (pending @ [?sc]) ?es1 = (res, p', es')"
      by (simp add: Let_def)
    from Cons.IH [OF this] obtain new where
      n: "es' = ?es1 @ new" "\<forall>e\<in>set new. loop_event e"
      by blast
    let ?new = "Exec_insert ?sc
                  # (if Suc idx mod 100 = 0 then [Print (Stored (Suc idx))] else []) @ new"
    have "es' = es @ ?new" using n(1) by simp
    moreover have "\<forall>e\<in>set ?new. loop_event e" using n(2) by auto
    ultimately show ?thesis by blast
  next
    case False
    with Cons.prems have "es' = es \<or> es' = es @ [Exec_insert ?sc]"
      by (auto simp: Let_def split: if_splits)
    then show ?thesis by auto
  qed
qed

lemma loop_event_others:
  "loop_event e \<Longrightarrow> e \<noteq> Exec_delete \<and> (\<forall>ts. e \<noteq> Encode ts) \<and> e \<noteq> Commit
     \<and> e \<noteq> Print Error_storing"
  by (cases e rule: loop_event.cases) auto

text \<open>The loop ends without an exception exactly when every row has a vector and is accepted.\<close>

lemma insert_rows_None:
  "fst (insert_rows ev embs idx rs pending es) = None \<longleftrightarrow>
     (rs \<noteq> [] \<longrightarrow> idx + length rs \<le> length embs)
     \<and> (\<forall>j<length rs. insert_ok ev (idx + j)
            (make_stored (literal_eval ev) (rs ! j) (embs ! (idx + j))))"
proof (induction rs arbitrary: idx pending es)
  case Nil
  show ?case by simp
next
  case (Cons r rs)
  let ?sc = "make_stored (literal_eval ev) r (embs ! idx)"
  let ?P = "\<lambda>j. insert_ok ev (idx + j)
              (make_stored (literal_eval ev) ((r # rs) ! j) (embs ! (idx + j)))"
  have split: "(\<forall>j<length (r # rs). ?P j) \<longleftrightarrow> ?P 0 \<and> (\<forall>j<length rs. ?P (Suc j))"
    by (simp add: All_less_Suc2)
  show ?case
  proof (cases "idx < length embs \<and> insert_ok ev idx ?sc")
    case True
    let ?es1 = "es @ Exec_insert ?sc
                  # (if Suc idx mod 100 = 0 then [Print (Stored (Suc idx))] else [])"
    from True have "fst (insert_rows ev embs idx (r # rs) pending es)
        = fst (insert_rows ev embs (Suc idx) rs (pending @ [?sc]) ?es1)"
      by (simp add: Let_def)
    also have "\<dots> = None \<longleftrightarrow> (rs \<noteq> [] \<longrightarrow> Suc idx + length rs \<le> length embs)
        \<and> (\<forall>j<length rs. insert_ok ev (Suc idx + j)
              (make_stored (literal_eval ev) (rs ! j) (embs ! (Suc idx + j))))"
      by (rule Cons.IH)
    finally show ?thesis using True unfolding split by (cases rs) auto
  next
    case False
    then have "fst (insert_rows ev embs idx (r # rs) pending es) \<noteq> None"
      by (auto simp: Let_def)
    moreover from False have "\<not> (idx + length (r # rs) \<le> length embs \<and> ?P 0)"
      by auto
    ultimately show ?thesis unfolding split by blast
  qed
qed

lemma insert_rows_pending:
  "insert_rows ev embs idx rs pending es = (None, p', es') \<Longrightarrow>
     p' = pending @ map (\<lambda>(i, r). make_stored (literal_eval ev) r (embs ! i)) (enumerate idx rs)"
proof (induction rs arbitrary: idx pending es)
  case Nil
  then show ?case by simp
next
  case (Cons r rs)
  let ?sc = "make_stored (literal_eval ev) r (embs ! idx)"
  let ?es1 = "es @ Exec_insert ?sc
                # (if Suc idx mod 100 = 0 then [Print (Stored (Suc idx))] else [])"
  from Cons.prems have ok: "idx < length embs \<and> insert_ok ev idx ?sc"
    by (auto simp: Let_def split: if_splits)
  with Cons.prems
  have "insert_rows ev embs (Suc idx) rs (pending @ [?sc]) ?es1 = (None, p', es')"
    by (simp add: Let_def)
  from Cons.IH [OF this] show ?case by simp
qed

section \<open>The \<open>try\<close> block and its handler\<close>

lemma new_events_emit: "trace w' = trace w @ es \<Longrightarrow> new_events w w' = es"
  by (simp add: new_events_def)

lemma emit_emit: "emit es (emit es' w) = emit (es' @ es) w"
  by (simp add: emit_def)

lemma trace_emit: "trace (emit es w) = trace w @ es"
  by (simp add: emit_def)

lemma committed_emit: "committed (emit es w) = committed w"
  by (simp add: emit_def)

lemma new_events_emit_upd: "new_events w ((emit es w)\<lparr>committed := p\<rparr>) = es"
  by (simp add: new_events_def emit_def)

text \<open>The \<open>try\<close> block ends without an exception exactly when every step succeeds.\<close>

lemma store_try_None_iff:
  "fst (store_try ev df w) = None \<longleftrightarrow>
     connect_ok ev \<and> delete_ok ev \<and> ''combined_text'' \<in> set (df_columns df)
     \<and> (\<exists>embs. encode ev (combined_texts df) = Some embs
          \<and> (\<forall>i<length (df_rows df). i < length embs
                \<and> insert_ok ev i (make_stored (literal_eval ev) (df_rows df ! i) (embs ! i))))
     \<and> commit_ok ev"
proof (cases "connect_ok ev \<and> delete_ok ev \<and> ''combined_text'' \<in> set (df_columns df)")
  case False
  then show ?thesis by (auto simp: store_try_def)
next
  case pre: True
  show ?thesis
  proof (cases "encode ev (combined_texts df)")
    case None
    with pre show ?thesis by (simp add: store_try_def Let_def)
  next
    case (Some embs)
    have loop: "fst (insert_rows ev embs 0 (df_rows df) [] [Print Storing]) = None \<longleftrightarrow>
        (\<forall>i<length (df_rows df). i < length embs
            \<and> insert_ok ev i (make_stored (literal_eval ev) (df_rows df ! i) (embs ! i)))"
      unfolding insert_rows_None by (cases "df_rows df") auto
    from pre Some have "fst (store_try ev df w) = None \<longleftrightarrow>
        fst (insert_rows ev embs 0 (df_rows df) [] [Print Storing]) = None \<and> commit_ok ev"
      by (auto simp: store_try_def Let_def split: prod.splits option.splits)
    with pre Some loop show ?thesis by simp
  qed
qed

lemma store_try_trace: "\<exists>es. trace (snd (store_try ev df w)) = trace w @ es"
  by (auto simp: store_try_def Let_def emit_def split: option.splits prod.splits)

lemma store_try_committed:
  "fst (store_try ev df w) \<noteq> None \<Longrightarrow> committed (snd (store_try ev df w)) = committed w"
  by (auto simp: store_try_def Let_def emit_def split: option.splits prod.splits if_splits)

lemma store_except_events:
  "snd (store_except ev w) = emit (except_events ev) w"
  by (simp add: store_except_def except_events_def)

lemma except_events_others:
  "Exec_delete \<notin> set (except_events ev) \<and> (\<forall>ts. Encode ts \<notin> set (except_events ev))
   \<and> (\<forall>sc. Exec_insert sc \<notin> set (except_events ev))
   \<and> Print Error_storing \<in> set (except_events ev)"
  by (simp add: except_events_def)

lemma store_cocktails_failed:
  assumes "fst (store_try ev df w) \<noteq> None"
  shows "store_cocktails ev df w = store_except ev (snd (store_try ev df w))"
  using assms by (cases "store_try ev df w") (auto simp: store_cocktails_def)

lemma store_cocktails_succeeded:
  assumes "fst (store_try ev df w) = None"
  shows "store_cocktails ev df w = (Inr (), snd (store_try ev df w))"
  using assms by (cases "store_try ev df w") (auto simp: store_cocktails_def)

text \<open>The events of one call of \<open>store_cocktails\<close>, by the step that fails.\<close>

lemma store_cocktails_events:
  "new_events w (snd (store_cocktails ev df w)) =
     (if \<not> connect_ok ev then [Connect, Print Error_connecting] @ except_events ev
      else if \<not> delete_ok ev
      then [Connect, Cursor, Exec_delete] @ except_events ev
      else if ''combined_text'' \<notin> set (df_columns df)
      then [Connect, Cursor, Exec_delete, Print (Generating (length (df_rows df)))]
           @ except_events ev
      else [Connect, Cursor, Exec_delete, Print (Generating (length (df_rows df))),
            Encode (combined_texts df)] @
        (case encode ev (combined_texts df) of
           None \<Rightarrow> except_events ev
         | Some embs \<Rightarrow>
             (case insert_rows ev embs 0 (df_rows df) [] [Print Storing] of
                (res, p, es) \<Rightarrow> es @
                  (case res of
                     Some e \<Rightarrow> except_events ev
                   | None \<Rightarrow>
                       if commit_ok ev
                       then [Commit, Close_cursor, Close, Print (Success (length (df_rows df)))]
                       else Commit # except_events ev))))"
  by (simp add: store_cocktails_def store_try_def store_except_events Let_def emit_def
      new_events_def split: option.splits prod.splits)

text \<open>The sample runs.\<close>

lemma sample_run_events:
  "new_events sample_world (snd (store_cocktails sample_env sample_df sample_world)) =
     [Connect, Cursor, Exec_delete, Print (Generating 1), Encode [''Negroni''], Print Storing,
      Exec_insert (make_stored sample_eval
        [''name'' \<mapsto> ''Negroni'', ''combined_text'' \<mapsto> ''Negroni''] (replicate 384 0)),
      Commit, Close_cursor, Close, Print (Success 1)]"
  unfolding store_cocktails_events
  by (simp add: sample_env_def sample_df_def combined_texts_def cell_def fits_table_def
      varchar_fits_def make_stored_def col_or_def Let_def)

lemma sample_try_ok: "fst (store_try sample_env sample_df w) = None"
  unfolding store_try_None_iff
  by (simp add: sample_env_def sample_df_def combined_texts_def cell_def fits_table_def
      varchar_fits_def make_stored_def col_or_def)

lemma short_vector_try: "fst (store_try short_vector_env sample_df w) \<noteq> None"
  unfolding store_try_None_iff
  by (simp add: short_vector_env_def sample_env_def sample_df_def combined_texts_def cell_def
      fits_table_def make_stored_def col_or_def)

lemma lost_connection_try: "fst (store_try lost_connection_env sample_df w) \<noteq> None"
  unfolding store_try_None_iff
  by (simp add: lost_connection_env_def sample_env_def sample_df_def combined_texts_def)

text \<open>
  With the server unreachable, \<open>get_connection\<close> returns \<open>None\<close>, the handler's
  \<open>connection.rollback()\<close> raises, and the exception leaves \<open>store_cocktails\<close>; the
  corpus is untouched.
\<close>

lemma unreachable_store_raises:
  "store_cocktails unreachable_env sample_df sample_world
     = (Inl AttributeError,
        emit [Connect, Print Error_connecting, Print Error_storing] sample_world)"
  by (simp add: store_cocktails_def store_try_def store_except_def unreachable_env_def
      sample_env_def emit_def)

lemma store_try_success:
  assumes "fst (store_try ev df w) = None" and "encode ev (combined_texts df) = Some embs"
  shows "committed (snd (store_try ev df w))
           = map (\<lambda>(i, r). make_stored (literal_eval ev) r (embs ! i))
               (enumerate 0 (df_rows df))"
    and "\<exists>ins. (\<forall>e\<in>set ins. loop_event e)
           \<and> new_events w (snd (store_cocktails ev df w))
               = [Connect, Cursor, Exec_delete, Print (Generating (length (df_rows df))),
                  Encode (combined_texts df), Print Storing] @ ins
                 @ [Commit, Close_cursor, Close, Print (Success (length (df_rows df)))]"
proof -
  from assms(1) have pre: "connect_ok ev" "delete_ok ev"
      "''combined_text'' \<in> set (df_columns df)" "commit_ok ev"
    unfolding store_try_None_iff by simp_all
  obtain res p es' where run:
    "insert_rows ev embs 0 (df_rows df) [] [Print Storing] = (res, p, es')"
    by (metis prod_cases3)
  from insert_rows_events [OF run] obtain ins where
    ins: "es' = [Print Storing] @ ins" "\<forall>e\<in>set ins. loop_event e"
    by blast
  from assms pre run have res: "res = None"
    by (auto simp: store_try_def Let_def split: option.splits)
  have p: "p = map (\<lambda>(i, r). make_stored (literal_eval ev) r (embs ! i))
                 (enumerate 0 (df_rows df))"
    using insert_rows_pending [of ev embs 0 "df_rows df" "[]"] run res by simp
  from pre assms(2) run res have "committed (snd (store_try ev df w)) = p"
    by (simp add: store_try_def Let_def)
  with p show "committed (snd (store_try ev df w))
           = map (\<lambda>(i, r). make_stored (literal_eval ev) r (embs ! i))
               (enumerate 0 (df_rows df))"
    by simp
  from pre assms(2) run res ins(1)
  have "new_events w (snd (store_cocktails ev df w))
      = [Connect, Cursor, Exec_delete, Print (Generating (length (df_rows df))),
         Encode (combined_texts df), Print Storing] @ ins
        @ [Commit, Close_cursor, Close, Print (Success (length (df_rows df)))]"
    unfolding store_cocktails_events by simp
  with ins(2) show "\<exists>ins. (\<forall>e\<in>set ins. loop_event e)
           \<and> new_events w (snd (store_cocktails ev df w))
               = [Connect, Cursor, Exec_delete, Print (Generating (length (df_rows df))),
                  Encode (combined_texts df), Print Storing] @ ins
                 @ [Commit, Close_cursor, Close, Print (Success (length (df_rows df)))]"
    by blast
qed

lemma store_cocktails_failed_events:
  assumes "fst (store_try ev df w) \<noteq> None"
  shows "\<exists>es. new_events w (snd (store_cocktails ev df w)) = es @ except_events ev"
proof -
  obtain es where es: "trace (snd (store_try ev df w)) = trace w @ es"
    using store_try_trace by blast
  have "trace (snd (store_cocktails ev df w)) = trace w @ es @ except_events ev"
    using store_cocktails_failed [OF assms] es
    by (simp add: store_except_events trace_emit)
  then have "new_events w (snd (store_cocktails ev df w)) = es @ except_events ev"
    by (rule new_events_emit)
  then show ?thesis by blast
qed

lemma store_cocktails_failed_committed:
  assumes "fst (store_try ev df w) \<noteq> None"
  shows "committed (snd (store_cocktails ev df w)) = committed w"
  using store_cocktails_failed [OF assms] store_try_committed [OF assms]
  by (simp add: store_except_events committed_emit)

lemma store_cocktails_failed_result:
  assumes "fst (store_try ev df w) \<noteq> None"
  shows "fst (store_cocktails ev df w) =
     (if \<not> connect_ok ev then Inl AttributeError
      else if rollback_ok ev \<and> close_ok ev then Inr () else Inl DatabaseError)"
  using store_cocktails_failed [OF assms] by (simp add: store_except_def)

text \<open>
  \<open>process_and_store\<close> hands on to its caller what \<open>store_cocktails\<close> returns or raises.
\<close>

lemma process_and_store_result:
  assumes "read_csv ev csv_path = Some df" and "clean_data df = (msgs, Inr df')"
  shows "process_and_store ev csv_path w
      = store_cocktails ev df'
          (emit (map Print msgs)
             (emit [Read_csv csv_path, Print (Loaded (length (df_rows df)) csv_path)] w))"
  using assms by (simp add: process_and_store_def load_data_def)

section \<open>\<open>store_cocktails\<close>: order, reporting, transaction\<close>

text \<open>
  C1, amended. Among the events of one call of \<open>store_cocktails\<close>: an insert is issued
  only in a run that called the Embedder; the Embedder is called at most once, on the
  list of all combined texts; and that call comes after the \<open>DELETE\<close> that clears the
  corpus (the run starts connect, cursor, \<open>DELETE\<close>, message, embed), with every later
  event, the inserts among them, behind it and neither a second \<open>DELETE\<close> nor a second
  Embedder call.
\<close>

theorem store_cocktails_order:
  "(Exec_insert sc \<in> set (new_events w (snd (store_cocktails ev df w))) \<longrightarrow>
      Encode (combined_texts df) \<in> set (new_events w (snd (store_cocktails ev df w))))
   \<and> (Encode ts \<in> set (new_events w (snd (store_cocktails ev df w))) \<longrightarrow>
        ts = combined_texts df
        \<and> (\<exists>es. new_events w (snd (store_cocktails ev df w))
                   = [Connect, Cursor, Exec_delete,
                      Print (Generating (length (df_rows df))),
                      Encode (combined_texts df)] @ es
             \<and> Exec_delete \<notin> set es \<and> (\<forall>ts'. Encode ts' \<notin> set es)))"
proof -
  define N where "N = new_events w (snd (store_cocktails ev df w))"
  let ?h = "[Connect, Cursor, Exec_delete, Print (Generating (length (df_rows df))),
             Encode (combined_texts df)]"
  note ex = except_events_others [of ev]
  have "(Exec_insert sc \<in> set N \<longrightarrow> Encode (combined_texts df) \<in> set N)
       \<and> (Encode ts \<in> set N \<longrightarrow>
            ts = combined_texts df
            \<and> (\<exists>es. N = ?h @ es \<and> Exec_delete \<notin> set es \<and> (\<forall>ts'. Encode ts' \<notin> set es)))"
  proof (cases "connect_ok ev \<and> delete_ok ev \<and> ''combined_text'' \<in> set (df_columns df)")
    case False
    then have "N = [Connect, Print Error_connecting] @ except_events ev
        \<or> N = [Connect, Cursor, Exec_delete] @ except_events ev
        \<or> N = [Connect, Cursor, Exec_delete, Print (Generating (length (df_rows df)))]
               @ except_events ev"
      unfolding N_def store_cocktails_events by auto
    then have "Exec_insert sc \<notin> set N \<and> Encode ts \<notin> set N"
      using ex by auto
    then show ?thesis by simp
  next
    case pre: True
    have "\<exists>es. N = ?h @ es \<and> Exec_delete \<notin> set es \<and> (\<forall>ts'. Encode ts' \<notin> set es)"
    proof (cases "encode ev (combined_texts df)")
      case None
      with pre have "N = ?h @ except_events ev"
        unfolding N_def store_cocktails_events by simp
      then show ?thesis using ex by blast
    next
      case (Some embs)
      obtain res p es' where run:
        "insert_rows ev embs 0 (df_rows df) [] [Print Storing] = (res, p, es')"
        by (metis prod_cases3)
      from insert_rows_events [OF run] obtain ins where
        ins: "es' = [Print Storing] @ ins" "\<forall>e\<in>set ins. loop_event e"
        by blast
      define tl where "tl = (case res of
          Some e \<Rightarrow> except_events ev
        | None \<Rightarrow> if commit_ok ev
                  then [Commit, Close_cursor, Close, Print (Success (length (df_rows df)))]
                  else Commit # except_events ev)"
      have tl: "Exec_delete \<notin> set tl \<and> (\<forall>ts'. Encode ts' \<notin> set tl)"
        using ex by (auto simp: tl_def split: option.splits)
      from pre Some run ins(1) have "N = ?h @ (Print Storing # ins @ tl)"
        unfolding N_def store_cocktails_events tl_def by simp
      moreover have "Exec_delete \<notin> set (Print Storing # ins @ tl)
          \<and> (\<forall>ts'. Encode ts' \<notin> set (Print Storing # ins @ tl))"
        using tl ins(2) loop_event_others by auto
      ultimately show ?thesis by blast
    qed
    then obtain es where "N = ?h @ es" "Exec_delete \<notin> set es" "\<forall>ts'. Encode ts' \<notin> set es"
      by blast
    then show ?thesis by auto
  qed
  then show ?thesis unfolding N_def .
qed

theorem store_cocktails_order_witness:
  "Exec_insert (make_stored sample_eval
        [''name'' \<mapsto> ''Negroni'', ''combined_text'' \<mapsto> ''Negroni''] (replicate 384 0))
     \<in> set (new_events sample_world (snd (store_cocktails sample_env sample_df sample_world)))
   \<and> Encode [''Negroni'']
     \<in> set (new_events sample_world (snd (store_cocktails sample_env sample_df sample_world)))
   \<and> (\<exists>es. new_events sample_world (snd (store_cocktails sample_env sample_df sample_world))
          = [Connect, Cursor, Exec_delete, Print (Generating (length (df_rows sample_df))),
             Encode (combined_texts sample_df)] @ es
        \<and> Exec_delete \<notin> set es \<and> (\<forall>ts'. Encode ts' \<notin> set es))"
proof -
  have a: "Exec_insert (make_stored sample_eval
        [''name'' \<mapsto> ''Negroni'', ''combined_text'' \<mapsto> ''Negroni''] (replicate 384 0))
     \<in> set (new_events sample_world (snd (store_cocktails sample_env sample_df sample_world)))"
    and b: "Encode [''Negroni'']
     \<in> set (new_events sample_world (snd (store_cocktails sample_env sample_df sample_world)))"
    unfolding sample_run_events by simp_all
  from a b store_cocktails_order [where ev = sample_env and df = sample_df
      and w = sample_world and ts = "[''Negroni'']"]
  show ?thesis by blast
qed

text \<open>
  C1 as stated fails: in the run on the sample frame the \<open>DELETE\<close> is the third event
  and the Embedder call the fifth.
\<close>

theorem clear_precedes_embedding:
  "take 5 (new_events sample_world (snd (store_cocktails sample_env sample_df sample_world)))
     = [Connect, Cursor, Exec_delete, Print (Generating 1), Encode [''Negroni'']]"
  unfolding sample_run_events by simp

text \<open>
  C2, amended. What the caller of \<open>store_cocktails\<close> sees of a failed ingestion depends
  on the step that fails. When the connection is refused, the call raises: the failure
  reaches the caller, and no statement was issued. When the connection is open and a
  later step raises (the clear, the embedding, the commit, or an insert that the
  server refuses), the handler prints the message \<open>Error storing cocktails\<close>, rolls
  back and closes, the corpus stays as it was, and, if rollback and close succeed,
  the call returns normally, as a successful run does; if the rollback or the close
  raises, that exception reaches the caller. The message is printed exactly when the
  \<open>try\<close> block raised.
\<close>

theorem store_cocktails_failure_report:
  "(\<not> connect_ok ev \<longrightarrow>
      store_cocktails ev df w
        = (Inl AttributeError, emit [Connect, Print Error_connecting, Print Error_storing] w))
   \<and> (encode ev (combined_texts df) = Some embs \<and> i < length (df_rows df)
        \<and> \<not> insert_ok ev i (make_stored (literal_eval ev) (df_rows df ! i) (embs ! i))
        \<longrightarrow> fst (store_try ev df w) \<noteq> None)
   \<and> (connect_ok ev \<and> fst (store_try ev df w) \<noteq> None \<and> rollback_ok ev \<and> close_ok ev \<longrightarrow>
        fst (store_cocktails ev df w) = Inr ()
        \<and> committed (snd (store_cocktails ev df w)) = committed w
        \<and> (\<exists>es. new_events w (snd (store_cocktails ev df w))
                   = es @ [Print Error_storing, Rollback, Close]))
   \<and> (connect_ok ev \<and> fst (store_try ev df w) \<noteq> None
        \<and> \<not> (rollback_ok ev \<and> close_ok ev) \<longrightarrow>
        fst (store_cocktails ev df w) = Inl DatabaseError
        \<and> committed (snd (store_cocktails ev df w)) = committed w
        \<and> Rollback \<in> set (new_events w (snd (store_cocktails ev df w))))
   \<and> (fst (store_try ev df w) = None \<longrightarrow> fst (store_cocktails ev df w) = Inr ())
   \<and> (fst (store_try ev df w) \<noteq> None \<longleftrightarrow>
        Print Error_storing \<in> set (new_events w (snd (store_cocktails ev df w))))"
proof (intro conjI impI)
  assume "\<not> connect_ok ev"
  then show "store_cocktails ev df w
      = (Inl AttributeError, emit [Connect, Print Error_connecting, Print Error_storing] w)"
    by (simp add: store_cocktails_def store_try_def store_except_def emit_def)
next
  assume a: "encode ev (combined_texts df) = Some embs \<and> i < length (df_rows df)
      \<and> \<not> insert_ok ev i (make_stored (literal_eval ev) (df_rows df ! i) (embs ! i))"
  show "fst (store_try ev df w) \<noteq> None"
  proof
    assume "fst (store_try ev df w) = None"
    then obtain embs' where "encode ev (combined_texts df) = Some embs'"
      and "\<forall>j<length (df_rows df). j < length embs'
              \<and> insert_ok ev j (make_stored (literal_eval ev) (df_rows df ! j) (embs' ! j))"
      unfolding store_try_None_iff by blast
    with a show False by auto
  qed
next
  assume a: "connect_ok ev \<and> fst (store_try ev df w) \<noteq> None \<and> rollback_ok ev \<and> close_ok ev"
  then have f: "fst (store_try ev df w) \<noteq> None" by simp
  from a have ee: "except_events ev = [Print Error_storing, Rollback, Close]"
    by (simp add: except_events_def)
  show "fst (store_cocktails ev df w) = Inr ()"
    using store_cocktails_failed_result [OF f] a by simp
  show "committed (snd (store_cocktails ev df w)) = committed w"
    using f by (rule store_cocktails_failed_committed)
  show "\<exists>es. new_events w (snd (store_cocktails ev df w))
                   = es @ [Print Error_storing, Rollback, Close]"
    using store_cocktails_failed_events [OF f] ee by simp
next
  assume a: "connect_ok ev \<and> fst (store_try ev df w) \<noteq> None
      \<and> \<not> (rollback_ok ev \<and> close_ok ev)"
  then have f: "fst (store_try ev df w) \<noteq> None" by simp
  show "fst (store_cocktails ev df w) = Inl DatabaseError"
    using store_cocktails_failed_result [OF f] a by auto
  show "committed (snd (store_cocktails ev df w)) = committed w"
    using f by (rule store_cocktails_failed_committed)
  from a have "Rollback \<in> set (except_events ev)" by (simp add: except_events_def)
  then show "Rollback \<in> set (new_events w (snd (store_cocktails ev df w)))"
    using store_cocktails_failed_events [OF f] by auto
next
  assume "fst (store_try ev df w) = None"
  then show "fst (store_cocktails ev df w) = Inr ()"
    using store_cocktails_succeeded by simp
next
  have "Print Error_storing \<in> set (new_events w (snd (store_cocktails ev df w)))"
    if f: "fst (store_try ev df w) \<noteq> None"
    using store_cocktails_failed_events [OF f] except_events_others [of ev] by auto
  moreover have "Print Error_storing \<notin> set (new_events w (snd (store_cocktails ev df w)))"
    if s: "fst (store_try ev df w) = None"
  proof -
    from s obtain embs' where embs: "encode ev (combined_texts df) = Some embs'"
      unfolding store_try_None_iff by blast
    from store_try_success(2) [OF s embs] obtain ins where
      "\<forall>e\<in>set ins. loop_event e"
      "new_events w (snd (store_cocktails ev df w))
         = [Connect, Cursor, Exec_delete, Print (Generating (length (df_rows df))),
            Encode (combined_texts df), Print Storing] @ ins
           @ [Commit, Close_cursor, Close, Print (Success (length (df_rows df)))]"
      by blast
    then show ?thesis using loop_event_others by auto
  qed
  ultimately show "fst (store_try ev df w) \<noteq> None \<longleftrightarrow>
        Print Error_storing \<in> set (new_events w (snd (store_cocktails ev df w)))"
    by blast
qed

theorem store_cocktails_failure_report_witness:
  "\<not> connect_ok unreachable_env
   \<and> store_cocktails unreachable_env sample_df sample_world
       = (Inl AttributeError,
          emit [Connect, Print Error_connecting, Print Error_storing] sample_world)
   \<and> encode short_vector_env (combined_texts sample_df) = Some [[0]]
   \<and> \<not> insert_ok short_vector_env 0
         (make_stored (literal_eval short_vector_env) (df_rows sample_df ! 0) ([[0]] ! 0))
   \<and> fst (store_try short_vector_env sample_df sample_world) \<noteq> None
   \<and> fst (store_cocktails short_vector_env sample_df sample_world) = Inr ()
   \<and> committed (snd (store_cocktails short_vector_env sample_df sample_world))
       = committed sample_world
   \<and> Print Error_storing \<in> set (new_events sample_world
        (snd (store_cocktails short_vector_env sample_df sample_world)))
   \<and> fst (store_try lost_connection_env sample_df sample_world) \<noteq> None
   \<and> fst (store_cocktails lost_connection_env sample_df sample_world) = Inl DatabaseError
   \<and> fst (store_try sample_env sample_df sample_world) = None
   \<and> fst (store_cocktails sample_env sample_df sample_world) = Inr ()"
proof -
  have u: "\<not> connect_ok unreachable_env"
    by (simp add: unreachable_env_def sample_env_def)
  have s1: "encode short_vector_env (combined_texts sample_df) = Some [[0]]"
    by (simp add: short_vector_env_def sample_env_def sample_df_def combined_texts_def)
  have s2: "0 < length (df_rows sample_df)" by (simp add: sample_df_def)
  have s3: "\<not> insert_ok short_vector_env 0
      (make_stored (literal_eval short_vector_env) (df_rows sample_df ! 0) ([[0]] ! 0))"
    by (simp add: short_vector_env_def sample_env_def fits_table_def make_stored_def)
  have s4: "connect_ok short_vector_env \<and> rollback_ok short_vector_env
      \<and> close_ok short_vector_env"
    by (simp add: short_vector_env_def sample_env_def)
  have l: "connect_ok lost_connection_env \<and> \<not> rollback_ok lost_connection_env"
    by (simp add: lost_connection_env_def sample_env_def)
  note A = store_cocktails_failure_report [where ev = unreachable_env and df = sample_df
      and w = sample_world]
  note B = store_cocktails_failure_report [where ev = short_vector_env and df = sample_df
      and w = sample_world and embs = "[[0]]" and i = 0]
  note C = store_cocktails_failure_report [where ev = lost_connection_env and df = sample_df
      and w = sample_world]
  note D = store_cocktails_failure_report [where ev = sample_env and df = sample_df
      and w = sample_world]
  from u A have a: "store_cocktails unreachable_env sample_df sample_world
       = (Inl AttributeError,
          emit [Connect, Print Error_connecting, Print Error_storing] sample_world)"
    by blast
  from s1 s2 s3 B have b1: "fst (store_try short_vector_env sample_df sample_world) \<noteq> None"
    by blast
  from b1 s4 B have b2: "fst (store_cocktails short_vector_env sample_df sample_world) = Inr ()
      \<and> committed (snd (store_cocktails short_vector_env sample_df sample_world))
          = committed sample_world
      \<and> Print Error_storing \<in> set (new_events sample_world
          (snd (store_cocktails short_vector_env sample_df sample_world)))"
    by blast
  from l lost_connection_try [of sample_world] C
  have c: "fst (store_cocktails lost_connection_env sample_df sample_world) = Inl DatabaseError"
    by blast
  from sample_try_ok [of sample_world] D
  have d: "fst (store_cocktails sample_env sample_df sample_world) = Inr ()"
    by blast
  from u a s1 s3 b1 b2 lost_connection_try [of sample_world] c sample_try_ok [of sample_world] d
  show ?thesis by blast
qed

text \<open>
  C2 as stated fails: with an Embedder whose vectors the table refuses, the insert
  raises, and \<open>store_cocktails\<close> returns to its caller exactly what the successful run
  returns.
\<close>

theorem failed_run_returns_normally:
  "fst (store_try short_vector_env sample_df sample_world) = Some DatabaseError
   \<and> fst (store_cocktails short_vector_env sample_df sample_world) = Inr ()
   \<and> fst (store_try sample_env sample_df sample_world) = None
   \<and> fst (store_cocktails sample_env sample_df sample_world) = Inr ()"
  by (simp add: store_cocktails_def store_try_def store_except_def Let_def
      short_vector_env_def sample_env_def sample_df_def combined_texts_def cell_def
      fits_table_def varchar_fits_def make_stored_def col_or_def)

text \<open>
  C9. The clear and the inserts of \<open>store_cocktails\<close> belong to one transaction. When
  the \<open>try\<close> block raises, the committed corpus is the one before the call, and on an
  open connection the handler's message is followed by the rollback (and by the close,
  when the rollback succeeds). When the \<open>try\<close> block does not raise, every insert was
  accepted, the commit is issued once, after all of them, and the committed corpus is
  exactly the rows built from the frame.
\<close>

theorem store_cocktails_transaction:
  "(fst (store_try ev df w) \<noteq> None \<longrightarrow>
      committed (snd (store_cocktails ev df w)) = committed w)
   \<and> (connect_ok ev \<and> fst (store_try ev df w) \<noteq> None \<longrightarrow>
        (\<exists>es. new_events w (snd (store_cocktails ev df w))
                = es @ Print Error_storing # Rollback
                     # (if rollback_ok ev then [Close] else [])))
   \<and> (fst (store_try ev df w) = None \<longrightarrow>
        (\<exists>embs es. encode ev (combined_texts df) = Some embs
           \<and> (\<forall>i<length (df_rows df). i < length embs
                 \<and> insert_ok ev i (make_stored (literal_eval ev) (df_rows df ! i) (embs ! i)))
           \<and> committed (snd (store_cocktails ev df w))
               = map (\<lambda>(i, r). make_stored (literal_eval ev) r (embs ! i))
                   (enumerate 0 (df_rows df))
           \<and> new_events w (snd (store_cocktails ev df w))
               = es @ [Commit, Close_cursor, Close, Print (Success (length (df_rows df)))]
           \<and> Commit \<notin> set es))"
proof (intro conjI impI)
  assume f: "fst (store_try ev df w) \<noteq> None"
  then show "committed (snd (store_cocktails ev df w)) = committed w"
    by (rule store_cocktails_failed_committed)
next
  assume a: "connect_ok ev \<and> fst (store_try ev df w) \<noteq> None"
  then have "except_events ev
      = Print Error_storing # Rollback # (if rollback_ok ev then [Close] else [])"
    by (simp add: except_events_def)
  with a show "\<exists>es. new_events w (snd (store_cocktails ev df w))
                = es @ Print Error_storing # Rollback
                     # (if rollback_ok ev then [Close] else [])"
    using store_cocktails_failed_events [of ev df w] by simp
next
  assume s: "fst (store_try ev df w) = None"
  then obtain embs where embs: "encode ev (combined_texts df) = Some embs"
    and ok: "\<forall>i<length (df_rows df). i < length embs
                \<and> insert_ok ev i (make_stored (literal_eval ev) (df_rows df ! i) (embs ! i))"
    unfolding store_try_None_iff by blast
  from store_try_success(2) [OF s embs] obtain ins where
    ins: "\<forall>e\<in>set ins. loop_event e"
    and evs: "new_events w (snd (store_cocktails ev df w))
         = [Connect, Cursor, Exec_delete, Print (Generating (length (df_rows df))),
            Encode (combined_texts df), Print Storing] @ ins
           @ [Commit, Close_cursor, Close, Print (Success (length (df_rows df)))]"
    by blast
  let ?es = "[Connect, Cursor, Exec_delete, Print (Generating (length (df_rows df))),
              Encode (combined_texts df), Print Storing] @ ins"
  have 1: "committed (snd (store_cocktails ev df w))
      = map (\<lambda>(i, r). make_stored (literal_eval ev) r (embs ! i)) (enumerate 0 (df_rows df))"
    using store_cocktails_succeeded [OF s] store_try_success(1) [OF s embs] by simp
  have 2: "new_events w (snd (store_cocktails ev df w))
      = ?es @ [Commit, Close_cursor, Close, Print (Success (length (df_rows df)))]"
    using evs by simp
  have 3: "Commit \<notin> set ?es" using ins loop_event_others by auto
  from embs ok 1 2 3
  show "\<exists>embs es. encode ev (combined_texts df) = Some embs
           \<and> (\<forall>i<length (df_rows df). i < length embs
                 \<and> insert_ok ev i (make_stored (literal_eval ev) (df_rows df ! i) (embs ! i)))
           \<and> committed (snd (store_cocktails ev df w))
               = map (\<lambda>(i, r). make_stored (literal_eval ev) r (embs ! i))
                   (enumerate 0 (df_rows df))
           \<and> new_events w (snd (store_cocktails ev df w))
               = es @ [Commit, Close_cursor, Close, Print (Success (length (df_rows df)))]
           \<and> Commit \<notin> set es"
    by blast
qed

theorem store_cocktails_transaction_witness:
  "fst (store_try short_vector_env sample_df sample_world) \<noteq> None
   \<and> connect_ok short_vector_env
   \<and> committed (snd (store_cocktails short_vector_env sample_df sample_world)) = [old_row]
   \<and> (\<exists>es. new_events sample_world (snd (store_cocktails short_vector_env sample_df sample_world))
             = es @ [Print Error_storing, Rollback, Close])
   \<and> fst (store_try lost_connection_env sample_df sample_world) \<noteq> None
   \<and> committed (snd (store_cocktails lost_connection_env sample_df sample_world)) = [old_row]
   \<and> (\<exists>es. new_events sample_world
               (snd (store_cocktails lost_connection_env sample_df sample_world))
             = es @ [Print Error_storing, Rollback])
   \<and> fst (store_try sample_env sample_df sample_world) = None
   \<and> (\<exists>embs es. encode sample_env (combined_texts sample_df) = Some embs
         \<and> committed (snd (store_cocktails sample_env sample_df sample_world))
             = map (\<lambda>(i, r). make_stored (literal_eval sample_env) r (embs ! i))
                 (enumerate 0 (df_rows sample_df))
         \<and> new_events sample_world (snd (store_cocktails sample_env sample_df sample_world))
             = es @ [Commit, Close_cursor, Close, Print (Success (length (df_rows sample_df)))]
         \<and> Commit \<notin> set es)"
proof -
  have c: "connect_ok short_vector_env \<and> rollback_ok short_vector_env"
    by (simp add: short_vector_env_def sample_env_def)
  have l: "connect_ok lost_connection_env \<and> \<not> rollback_ok lost_connection_env"
    by (simp add: lost_connection_env_def sample_env_def)
  have o: "committed sample_world = [old_row]" by (simp add: sample_world_def)
  note A = store_cocktails_transaction [of short_vector_env sample_df sample_world]
  note B = store_cocktails_transaction [of lost_connection_env sample_df sample_world]
  note C = store_cocktails_transaction [of sample_env sample_df sample_world]
  from A c o short_vector_try [of sample_world]
  have a: "committed (snd (store_cocktails short_vector_env sample_df sample_world)) = [old_row]
      \<and> (\<exists>es. new_events sample_world
                 (snd (store_cocktails short_vector_env sample_df sample_world))
               = es @ [Print Error_storing, Rollback, Close])"
    by simp
  from B l o lost_connection_try [of sample_world]
  have b: "committed (snd (store_cocktails lost_connection_env sample_df sample_world))
        = [old_row]
      \<and> (\<exists>es. new_events sample_world
                 (snd (store_cocktails lost_connection_env sample_df sample_world))
               = es @ [Print Error_storing, Rollback])"
    by simp
  from C sample_try_ok [of sample_world]
  have d: "\<exists>embs es. encode sample_env (combined_texts sample_df) = Some embs
         \<and> committed (snd (store_cocktails sample_env sample_df sample_world))
             = map (\<lambda>(i, r). make_stored (literal_eval sample_env) r (embs ! i))
                 (enumerate 0 (df_rows sample_df))
         \<and> new_events sample_world (snd (store_cocktails sample_env sample_df sample_world))
             = es @ [Commit, Close_cursor, Close, Print (Success (length (df_rows sample_df)))]
         \<and> Commit \<notin> set es"
    by (simp only: simp_thms) blast
  from a b d c short_vector_try [of sample_world] lost_connection_try [of sample_world]
    sample_try_ok [of sample_world]
  show ?thesis by blast
qed

end
